theory Spec2Isabelle
  imports Main "HOL-Library.Word"
begin

section \<open>In-display fingerprint bridge (fod/FingerprintInscreen.cpp)\<close>

subsection \<open>Constants of the source\<close>

type_synonym int32 = "32 word"

definition FINGERPRINT_ACQUIRED_VENDOR :: int32 where
  "FINGERPRINT_ACQUIRED_VENDOR = 6"

definition COMMAND_NIT :: int32 where
  "COMMAND_NIT = 10"

definition PARAM_NIT_630_FOD :: int32 where
  "PARAM_NIT_630_FOD = 1"

definition PARAM_NIT_NONE :: int32 where
  "PARAM_NIT_NONE = 0"

definition FOD_PRESSED_PATH :: string where
  "FOD_PRESSED_PATH = ''/sys/devices/platform/soc/soc:qcom,dsi-display-primary/fod_pressed''"

definition FOD_PRESSED_ON :: int where
  "FOD_PRESSED_ON = 1"

definition FOD_PRESSED_OFF :: int where
  "FOD_PRESSED_OFF = 0"

definition FOD_STATUS_PATH :: string where
  "FOD_STATUS_PATH = ''/sys/devices/virtual/touch/tp_dev/fod_status''"

definition FOD_STATUS_ON :: int where
  "FOD_STATUS_ON = 1"

definition FOD_STATUS_OFF :: int where
  "FOD_STATUS_OFF = 0"

definition FOD_UI_PATH :: string where
  "FOD_UI_PATH = ''/sys/devices/platform/soc/soc:qcom,dsi-display-primary/fod_ui''"

definition FOD_DEFAULT_X :: int32 where
  "FOD_DEFAULT_X = 445"

definition FOD_DEFAULT_Y :: int32 where
  "FOD_DEFAULT_Y = 1910"

definition FOD_DEFAULT_SIZE :: int32 where
  "FOD_DEFAULT_SIZE = 190"

subsection \<open>State and observable effects\<close>

text \<open>
  A HIDL \<open>Return<void>\<close> either is ok or carries a transport error with a description.
  The registered callback is a remote object: what the model keeps of it is the status its
  two notifications come back with.
\<close>

datatype return_status = IsOk | NotOk string

record IFingerprintInscreenCallback =
  onFingerDown_ret :: return_status
  onFingerUp_ret :: return_status

text \<open>One constructor per \<open>LOG(...)\<close> statement of the source, with the values it prints.\<close>

datatype log_entry =
    Warning_property_unexpected string
  | Warning_size_not_square int32 int32
  | Info_fod_located int32 int32 int32
  | Error_open_fd int
  | Error_poll_fd int
  | Error_seek_fd int
  | Error_read_bool int
  | Error_FingerDown string
  | Error_FingerUp string
  | Error_handleError int32 int32

text \<open>
  Everything the service does to the outside, in the order it does it: a log line, a value
  streamed to a file by \<open>set(path, value)\<close>, an \<open>extCmd\<close> call on the fingerprint HAL
  proxy, a notification invoked on the registered callback.
\<close>

datatype effect =
    Log log_entry
  | SysfsWrite string int
  | ExtCmd int32 int32
  | OnFingerDown
  | OnFingerUp

record FingerprintInscreen =
  fodPosX :: int32
  fodPosY :: int32
  fodSize :: int32
  mCallback :: "IFingerprintInscreenCallback option"
  effects :: "effect list"

definition emit :: "effect \<Rightarrow> FingerprintInscreen \<Rightarrow> FingerprintInscreen" where
  "emit e st = st\<lparr>effects := effects st @ [e]\<rparr>"

text \<open>\<open>set(path, value)\<close>: opens an output stream on the path and streams the value to it.\<close>

definition set_file :: "string \<Rightarrow> int \<Rightarrow> FingerprintInscreen \<Rightarrow> FingerprintInscreen" where
  "set_file path v st = emit (SysfsWrite path v) st"

subsection \<open>Interface methods\<close>

definition getPositionX :: "FingerprintInscreen \<Rightarrow> int32" where
  "getPositionX st = fodPosX st"

definition getPositionY :: "FingerprintInscreen \<Rightarrow> int32" where
  "getPositionY st = fodPosY st"

definition getSize :: "FingerprintInscreen \<Rightarrow> int32" where
  "getSize st = fodSize st"

definition onStartEnroll :: "FingerprintInscreen \<Rightarrow> FingerprintInscreen" where
  "onStartEnroll st = st"

definition onFinishEnroll :: "FingerprintInscreen \<Rightarrow> FingerprintInscreen" where
  "onFinishEnroll st = st"

definition onPress :: "FingerprintInscreen \<Rightarrow> FingerprintInscreen" where
  "onPress st = set_file FOD_PRESSED_PATH FOD_PRESSED_ON st"

definition onRelease :: "FingerprintInscreen \<Rightarrow> FingerprintInscreen" where
  "onRelease st = set_file FOD_PRESSED_PATH FOD_PRESSED_OFF st"

definition onShowFODView :: "FingerprintInscreen \<Rightarrow> FingerprintInscreen" where
  "onShowFODView st = set_file FOD_STATUS_PATH FOD_STATUS_ON st"

definition onHideFODView :: "FingerprintInscreen \<Rightarrow> FingerprintInscreen" where
  "onHideFODView st = set_file FOD_STATUS_PATH FOD_STATUS_OFF st"

text \<open>
  \<open>handleAcquired\<close>, branch by branch: the null check on the callback first, then the
  sentinel, then the two vendor codes. A notification that comes back not ok is logged and
  the method still returns true.
\<close>

definition handleAcquired ::
  "int32 \<Rightarrow> int32 \<Rightarrow> FingerprintInscreen \<Rightarrow> bool \<times> FingerprintInscreen" where
  "handleAcquired acquiredInfo vendorCode st =
     (case mCallback st of
        None \<Rightarrow> (False, st)
      | Some cb \<Rightarrow>
          if acquiredInfo = FINGERPRINT_ACQUIRED_VENDOR then
            if vendorCode = 22 then
              (let st1 = emit OnFingerDown st;
                   st2 = (case onFingerDown_ret cb of
                            IsOk \<Rightarrow> st1
                          | NotOk d \<Rightarrow> emit (Log (Error_FingerDown d)) st1)
               in (True, st2))
            else if vendorCode = 23 then
              (let st1 = emit OnFingerUp st;
                   st2 = (case onFingerUp_ret cb of
                            IsOk \<Rightarrow> st1
                          | NotOk d \<Rightarrow> emit (Log (Error_FingerUp d)) st1)
               in (True, st2))
            else (False, st)
          else (False, st))"

definition handleError ::
  "int32 \<Rightarrow> int32 \<Rightarrow> FingerprintInscreen \<Rightarrow> bool \<times> FingerprintInscreen" where
  "handleError err vendorCode st = (False, emit (Log (Error_handleError err vendorCode)) st)"

definition setLongPressEnabled :: "bool \<Rightarrow> FingerprintInscreen \<Rightarrow> FingerprintInscreen" where
  "setLongPressEnabled b st = st"

definition getDimAmount :: "int32 \<Rightarrow> FingerprintInscreen \<Rightarrow> int32" where
  "getDimAmount b st = 0"

definition shouldBoostBrightness :: "FingerprintInscreen \<Rightarrow> bool" where
  "shouldBoostBrightness st = False"

definition setCallback ::
  "IFingerprintInscreenCallback option \<Rightarrow> FingerprintInscreen \<Rightarrow> FingerprintInscreen" where
  "setCallback callback st = st\<lparr>mCallback := callback\<rparr>"

text \<open>The notifications among the effects, and the file writes among them.\<close>

fun is_notification :: "effect \<Rightarrow> bool" where
  "is_notification OnFingerDown = True"
| "is_notification OnFingerUp = True"
| "is_notification _ = False"

definition notifications :: "FingerprintInscreen \<Rightarrow> effect list" where
  "notifications st = filter is_notification (effects st)"

fun sysfs_write_of :: "effect \<Rightarrow> (string \<times> int) option" where
  "sysfs_write_of (SysfsWrite p v) = Some (p, v)"
| "sysfs_write_of _ = None"

definition sysfs_writes :: "FingerprintInscreen \<Rightarrow> (string \<times> int) list" where
  "sysfs_writes st = List.map_filter sysfs_write_of (effects st)"

subsection \<open>Reading the geometry properties\<close>

text \<open>
  \<open>android::base::Split\<close> with the one-character delimiter set the source passes: the
  text up to the next delimiter is one piece, and the text after the last delimiter (empty
  when there is none) is the last piece, so the result is never empty and \<open>Split ""\<close> is
  one empty piece.
\<close>

function Split :: "string \<Rightarrow> string \<Rightarrow> string list" where
  "Split s delimiters =
     (let piece = takeWhile (\<lambda>c. c \<notin> set delimiters) s;
          found = dropWhile (\<lambda>c. c \<notin> set delimiters) s
      in case found of
           [] \<Rightarrow> [piece]
         | _ # base \<Rightarrow> piece # Split base delimiters)"
  by pat_completeness auto
termination
proof (relation "measure (\<lambda>(s, d). length s)")
  show "wf (measure (\<lambda>(s, d). length s))" by simp
next
  fix s delimiters :: string and x xa :: string and x21 :: char and x22 :: string
  assume "xa = dropWhile (\<lambda>c. c \<notin> set delimiters) s" and "xa = x21 # x22"
  then have "length (x21 # x22) \<le> length s"
    using length_dropWhile_le [of "\<lambda>c. c \<notin> set delimiters" s] by simp
  then show "((x22, delimiters), (s, delimiters)) \<in> measure (\<lambda>(s, d). length s)"
    by simp
qed

declare Split.simps [simp del]

text \<open>\<open>android::base::GetProperty(key, default)\<close>: the default stands in for a property
  that is not set or is set to the empty string.\<close>

definition GetProperty :: "(string \<Rightarrow> string option) \<Rightarrow> string \<Rightarrow> string \<Rightarrow> string" where
  "GetProperty props key default_value =
     (case props key of
        None \<Rightarrow> default_value
      | Some v \<Rightarrow> if v = [] then default_value else v)"

definition GetListProperty :: "(string \<Rightarrow> string option) \<Rightarrow> string \<Rightarrow> string list" where
  "GetListProperty props key = Split (GetProperty props key []) '',''"

text \<open>
  \<open>android::base::ParseInt<int32_t>\<close>: leading C-locale white space is skipped, a leading
  \<open>0x\<close> or \<open>0X\<close> selects base 16, \<open>strtoll\<close> reads an optional sign and the digits, the
  whole rest of the string has to be consumed, and the value has to lie between the bounds.
\<close>

definition isspace :: "char \<Rightarrow> bool" where
  "isspace c = (c = CHR 0x20 \<or> c = CHR 0x09 \<or> c = CHR 0x0A \<or> c = CHR 0x0B \<or>
                c = CHR 0x0C \<or> c = CHR 0x0D)"

definition digit_of :: "char \<Rightarrow> nat option" where
  "digit_of c =
     (let n = (of_char c :: nat) in
      if 48 \<le> n \<and> n \<le> 57 then Some (n - 48)
      else if 97 \<le> n \<and> n \<le> 122 then Some (n - 87)
      else if 65 \<le> n \<and> n \<le> 90 then Some (n - 55)
      else None)"

fun digits_value :: "nat \<Rightarrow> int \<Rightarrow> string \<Rightarrow> int option" where
  "digits_value base acc [] = Some acc"
| "digits_value base acc (c # cs) =
     (case digit_of c of
        None \<Rightarrow> None
      | Some d \<Rightarrow> if d < base then digits_value base (acc * int base + int d) cs else None)"

definition is_hex_digit :: "char \<Rightarrow> bool" where
  "is_hex_digit c = (case digit_of c of None \<Rightarrow> False | Some d \<Rightarrow> d < 16)"

text \<open>
  \<open>strtoll(s, &end, base)\<close> together with the three checks \<open>ParseInt\<close> makes on it:
  \<open>None\<close> when \<open>errno\<close> is set (the value does not fit a \<open>long long\<close>), when no digit
  was read, or when a character is left over.
\<close>

definition strtoll_all :: "string \<Rightarrow> nat \<Rightarrow> int option" where
  "strtoll_all s base =
     (let s0 = dropWhile isspace s;
          neg = (case s0 of c # _ \<Rightarrow> c = CHR ''-'' | [] \<Rightarrow> False);
          s1 = (case s0 of c # r \<Rightarrow> if c = CHR ''-'' \<or> c = CHR ''+'' then r else s0 | [] \<Rightarrow> s0);
          s2 = (case s1 of
                  z # x # h # _ \<Rightarrow>
                    if base = 16 \<and> z = CHR ''0'' \<and> (x = CHR ''x'' \<or> x = CHR ''X'') \<and> is_hex_digit h
                    then drop 2 s1 else s1
                | _ \<Rightarrow> s1)
      in if s2 = [] then None
         else case digits_value base 0 s2 of
                None \<Rightarrow> None
              | Some n \<Rightarrow>
                  (let v = (if neg then - n else n)
                   in if v < - (2 ^ 63) \<or> 2 ^ 63 - 1 < v then None else Some v))"

definition ParseInt :: "string \<Rightarrow> int \<Rightarrow> int \<Rightarrow> int32 option" where
  "ParseInt str min_v max_v =
     (let s = dropWhile isspace str;
          base = (case s of
                    z # x # _ \<Rightarrow> if z = CHR ''0'' \<and> (x = CHR ''x'' \<or> x = CHR ''X'') then 16 else 10
                  | _ \<Rightarrow> 10)
      in case strtoll_all s base of
           None \<Rightarrow> None
         | Some result \<Rightarrow>
             if result < min_v \<or> max_v < result then None else Some (word_of_int result))"

definition INT32_MIN :: int where
  "INT32_MIN = - (2 ^ 31)"

definition INT32_MAX :: int where
  "INT32_MAX = 2 ^ 31 - 1"

text \<open>The \<open>for\<close> loop of \<open>GetIntListProperty\<close>; \<open>None\<close> is its \<open>goto unexpected\<close>.\<close>

fun parse_values :: "string list \<Rightarrow> int32 list \<Rightarrow> int32 list option" where
  "parse_values [] values = Some values"
| "parse_values (s # ss) values =
     (case ParseInt s INT32_MIN INT32_MAX of
        None \<Rightarrow> None
      | Some v \<Rightarrow> parse_values ss (values @ [v]))"

definition GetIntListProperty ::
  "(string \<Rightarrow> string option) \<Rightarrow> string \<Rightarrow> int32 list \<Rightarrow> int32 list \<times> log_entry list" where
  "GetIntListProperty props key default_values =
     (let strings = GetListProperty props key in
      if length strings \<noteq> length default_values
      then (default_values, [Warning_property_unexpected key])
      else case parse_values strings [] of
             None \<Rightarrow> (default_values, [Warning_property_unexpected key])
           | Some values \<Rightarrow> (values, []))"

text \<open>\<open>std::max\<close> on \<open>int32_t\<close>: the comparison is the signed one.\<close>

definition std_max :: "int32 \<Rightarrow> int32 \<Rightarrow> int32" where
  "std_max a b = (if sint a < sint b then b else a)"

definition POSITION_KEY :: string where
  "POSITION_KEY = ''persist.vendor.sys.fp.fod.location.X_Y''"

definition SIZE_KEY :: string where
  "SIZE_KEY = ''persist.vendor.sys.fp.fod.size.width_height''"

text \<open>
  The constructor, up to the point where it starts the polling thread. Its argument is the
  system property store it reads. No callback is registered in a new object.
\<close>

definition FingerprintInscreen_new :: "(string \<Rightarrow> string option) \<Rightarrow> FingerprintInscreen" where
  "FingerprintInscreen_new props =
     (let (ints, log1) = GetIntListProperty props POSITION_KEY [FOD_DEFAULT_X, FOD_DEFAULT_Y];
          x = ints ! 0;
          y = ints ! 1;
          (ints2, log2) = GetIntListProperty props SIZE_KEY [FOD_DEFAULT_SIZE, FOD_DEFAULT_SIZE];
          log3 = (if ints2 ! 0 \<noteq> ints2 ! 1
                  then [Warning_size_not_square (ints2 ! 0) (ints2 ! 1)] else []);
          sz = std_max (ints2 ! 0) (ints2 ! 1)
      in \<lparr>fodPosX = x, fodPosY = y, fodSize = sz, mCallback = None,
          effects = map Log (log1 @ log2 @ log3 @ [Info_fod_located x y sz])\<rparr>)"

subsection \<open>The polling thread\<close>

text \<open>
  What the kernel answers during one turn of the loop: the return value of \<open>poll\<close>, of
  \<open>lseek\<close>, of \<open>read\<close>, and the byte \<open>read\<close> stored when it returned 1.
\<close>

record wakeup =
  poll_rc :: int
  lseek_rc :: int
  read_rc :: int
  read_byte :: "8 word"

definition readBool :: "wakeup \<Rightarrow> FingerprintInscreen \<Rightarrow> bool \<times> FingerprintInscreen" where
  "readBool w st =
     (if lseek_rc w \<noteq> 0 then (False, emit (Log (Error_seek_fd (lseek_rc w))) st)
      else if read_rc w \<noteq> 1 then (False, emit (Log (Error_read_bool (read_rc w))) st)
      else (read_byte w \<noteq> 0x30, st))"

text \<open>One turn of \<open>while (true)\<close>.\<close>

definition poll_turn :: "wakeup \<Rightarrow> FingerprintInscreen \<Rightarrow> FingerprintInscreen" where
  "poll_turn w st =
     (if poll_rc w < 0 then emit (Log (Error_poll_fd (poll_rc w))) st
      else (let (b, st1) = readBool w st
            in emit (ExtCmd COMMAND_NIT (if b then PARAM_NIT_630_FOD else PARAM_NIT_NONE)) st1))"

text \<open>
  The thread body. The loop never ends by itself; the model runs it for as many turns as
  there are kernel answers in the list.
\<close>

fun poll_turns :: "wakeup list \<Rightarrow> FingerprintInscreen \<Rightarrow> FingerprintInscreen" where
  "poll_turns [] st = st"
| "poll_turns (w # ws) st = poll_turns ws (poll_turn w st)"

definition fod_ui_thread :: "int \<Rightarrow> wakeup list \<Rightarrow> FingerprintInscreen \<Rightarrow> FingerprintInscreen" where
  "fod_ui_thread fd ws st =
     (if fd < 0 then emit (Log (Error_open_fd fd)) st else poll_turns ws st)"

fun ext_cmd_of :: "effect \<Rightarrow> (int32 \<times> int32) option" where
  "ext_cmd_of (ExtCmd c p) = Some (c, p)"
| "ext_cmd_of _ = None"

definition ext_cmds :: "FingerprintInscreen \<Rightarrow> (int32 \<times> int32) list" where
  "ext_cmds st = List.map_filter ext_cmd_of (effects st)"

subsection \<open>Calls arriving over the interface\<close>

datatype hidl_call =
    Call_getPositionX
  | Call_getPositionY
  | Call_getSize
  | Call_onStartEnroll
  | Call_onFinishEnroll
  | Call_onPress
  | Call_onRelease
  | Call_onShowFODView
  | Call_onHideFODView
  | Call_handleAcquired int32 int32
  | Call_handleError int32 int32
  | Call_setLongPressEnabled bool
  | Call_getDimAmount int32
  | Call_shouldBoostBrightness
  | Call_setCallback "IFingerprintInscreenCallback option"
  | Thread_wakeup wakeup

text \<open>The state a call leaves behind, and a whole sequence of calls.\<close>

fun serve :: "hidl_call \<Rightarrow> FingerprintInscreen \<Rightarrow> FingerprintInscreen" where
  "serve Call_getPositionX st = st"
| "serve Call_getPositionY st = st"
| "serve Call_getSize st = st"
| "serve Call_onStartEnroll st = onStartEnroll st"
| "serve Call_onFinishEnroll st = onFinishEnroll st"
| "serve Call_onPress st = onPress st"
| "serve Call_onRelease st = onRelease st"
| "serve Call_onShowFODView st = onShowFODView st"
| "serve Call_onHideFODView st = onHideFODView st"
| "serve (Call_handleAcquired a v) st = snd (handleAcquired a v st)"
| "serve (Call_handleError e v) st = snd (handleError e v st)"
| "serve (Call_setLongPressEnabled b) st = setLongPressEnabled b st"
| "serve (Call_getDimAmount b) st = st"
| "serve Call_shouldBoostBrightness st = st"
| "serve (Call_setCallback cb) st = setCallback cb st"
| "serve (Thread_wakeup w) st = poll_turn w st"

fun serve_all :: "hidl_call list \<Rightarrow> FingerprintInscreen \<Rightarrow> FingerprintInscreen" where
  "serve_all [] st = st"
| "serve_all (c # cs) st = serve_all cs (serve c st)"

section \<open>Audio effect forwarder (parts/.../dirac/DiracUtils.java)\<close>

subsection \<open>The effect object and the class state\<close>

text \<open>
  \<open>DiracSound\<close> is the proprietary effect class. The model keeps, for an object of it, the
  arguments it was constructed with, a number telling the objects apart (the count of
  earlier constructions), and the setter calls forwarded to it so far. The type \<open>'f\<close>
  stands for Java's \<open>float\<close>. What \<open>getMusic()\<close> answers is the library's business: the
  methods below take it as the parameter \<open>getMusic\<close>.
\<close>

datatype 'f dirac_call =
    DiracSound_setMusic int32
  | DiracSound_setLevel nat 'f
  | DiracSound_setHeadsetType int32

record 'f DiracSound =
  ctor_args :: "int32 \<times> int32"
  object_no :: nat
  calls :: "'f dirac_call list"

text \<open>One constructor per \<open>Log.d\<close> statement (\<open>DEBUG\<close> is the constant true).\<close>

datatype debug_log =
    Log_setMusic bool
  | Log_setLevel string
  | Log_setHeadsetType int32

record 'f DiracUtils =
  mDiracSound :: "'f DiracSound option"
  constructed :: nat
  logcat :: "debug_log list"

datatype java_error = NullPointerException | NumberFormatException

text \<open>
  A method that can throw returns the exception, if any, and the state at the moment it
  returned or threw.
\<close>

type_synonym 'f outcome = "java_error option \<times> 'f DiracUtils"

definition Log_d :: "debug_log \<Rightarrow> 'f DiracUtils \<Rightarrow> 'f DiracUtils" where
  "Log_d l st = st\<lparr>logcat := logcat st @ [l]\<rparr>"

definition forward :: "'f dirac_call \<Rightarrow> 'f DiracSound \<Rightarrow> 'f DiracSound" where
  "forward c d = d\<lparr>calls := calls d @ [c]\<rparr>"

text \<open>
  An instance method invoked through the static field: the arguments are evaluated by the
  caller before, and a null field throws here.
\<close>

definition invoke :: "'f dirac_call \<Rightarrow> 'f DiracUtils \<Rightarrow> 'f outcome" where
  "invoke c st =
     (case mDiracSound st of
        None \<Rightarrow> (Some NullPointerException, st)
      | Some d \<Rightarrow> (None, st\<lparr>mDiracSound := Some (forward c d)\<rparr>))"

subsection \<open>The methods\<close>

definition initialize :: "'f DiracUtils \<Rightarrow> 'f DiracUtils" where
  "initialize st =
     (if mDiracSound st = None
      then st\<lparr>mDiracSound := Some \<lparr>ctor_args = (0, 0), object_no = constructed st, calls = []\<rparr>,
              constructed := Suc (constructed st)\<rparr>
      else st)"

definition setMusic :: "bool \<Rightarrow> 'f DiracUtils \<Rightarrow> 'f outcome" where
  "setMusic enable st =
     invoke (DiracSound_setMusic (if enable then 1 else 0)) (Log_d (Log_setMusic enable) st)"

definition isDiracEnabled :: "('f DiracSound \<Rightarrow> int32) \<Rightarrow> 'c \<Rightarrow> 'f DiracUtils \<Rightarrow> bool" where
  "isDiracEnabled getMusic context st =
     (case mDiracSound st of
        None \<Rightarrow> False
      | Some d \<Rightarrow> getMusic d = 1)"

definition setHeadsetType :: "int32 \<Rightarrow> 'f DiracUtils \<Rightarrow> 'f outcome" where
  "setHeadsetType paramInt st =
     invoke (DiracSound_setHeadsetType paramInt) (Log_d (Log_setHeadsetType paramInt) st)"

subsection \<open>Splitting the preset string\<close>

text \<open>
  \<open>preset.split("\\s*,\\s*")\<close>. The class \<open>\s\<close> of \<open>java.util.regex\<close> is
  \<open>[ \t\n\x0B\f\r]\<close>. A match of \<open>\s*,\s*\<close> at the head of a string takes the
  longest run of white space, then has to see the comma, then takes the longest run of
  white space again (giving white space back never helps: the comma is not white space);
  \<open>match_delim\<close> returns what follows the match.
\<close>

definition is_ws :: "char \<Rightarrow> bool" where
  "is_ws c = (c = CHR 0x20 \<or> c = CHR 0x09 \<or> c = CHR 0x0A \<or> c = CHR 0x0B \<or>
              c = CHR 0x0C \<or> c = CHR 0x0D)"

definition match_delim :: "string \<Rightarrow> string option" where
  "match_delim s =
     (case dropWhile is_ws s of
        [] \<Rightarrow> None
      | c # r \<Rightarrow> if c = CHR '','' then Some (dropWhile is_ws r) else None)"

text \<open>
  \<open>Matcher.find\<close>: the leftmost position a match starts at. The result is the text before
  the match and the text after it.
\<close>

fun find_delim :: "string \<Rightarrow> (string \<times> string) option" where
  "find_delim [] = None"
| "find_delim (c # cs) =
     (case match_delim (c # cs) of
        Some r \<Rightarrow> Some ([], r)
      | None \<Rightarrow>
          (case find_delim cs of
             None \<Rightarrow> None
           | Some (seg, r) \<Rightarrow> Some (c # seg, r)))"

lemma find_delim_shorter: "find_delim s = Some (seg, r) \<Longrightarrow> length r < length s"
proof (induction s arbitrary: seg)
  case Nil
  then show ?case by simp
next
  case (Cons c cs)
  show ?case
  proof (cases "match_delim (c # cs)")
    case (Some r')
    with Cons.prems have r: "r' = r" by simp
    from Some obtain x xs where d: "dropWhile is_ws (c # cs) = x # xs"
      and r': "r' = dropWhile is_ws xs"
      by (auto simp: match_delim_def split: list.splits if_splits)
    have "length (x # xs) \<le> length (c # cs)"
      using length_dropWhile_le [of is_ws "c # cs"] d by simp
    moreover have "length (dropWhile is_ws xs) \<le> length xs"
      by (rule length_dropWhile_le)
    ultimately show ?thesis using r r' by simp
  next
    case None
    with Cons.prems obtain seg' where "find_delim cs = Some (seg', r)"
      by (auto split: option.splits)
    from Cons.IH [OF this] show ?thesis by simp
  qed
qed

text \<open>
  The \<open>while (m.find())\<close> loop of \<open>split\<close> with the segment after the last match
  appended: the pieces between the matches.
\<close>

function pieces :: "string \<Rightarrow> string list" where
  "pieces s =
     (case find_delim s of
        None \<Rightarrow> [s]
      | Some (seg, r) \<Rightarrow> seg # pieces r)"
  by pat_completeness auto
termination
  by (relation "measure length") (auto dest: find_delim_shorter)

declare pieces.simps [simp del]

definition drop_trailing_empty :: "string list \<Rightarrow> string list" where
  "drop_trailing_empty xs = rev (dropWhile (\<lambda>x. x = []) (rev xs))"

text \<open>
  \<open>String.split(regex)\<close>, that is limit 0: with no match at all the result is the input
  as it is; otherwise the pieces, without the empty ones at the end.
\<close>

definition java_split :: "string \<Rightarrow> string list" where
  "java_split s =
     (case find_delim s of
        None \<Rightarrow> [s]
      | Some _ \<Rightarrow> drop_trailing_empty (pieces s))"

text \<open>
  \<open>Float.valueOf(String)\<close> ignores leading and trailing white space as \<open>String.trim\<close>
  does (every character up to the space, \<open>U+0020\<close>) and throws
  \<open>NumberFormatException\<close> on what is not a number. The grammar of numbers and the
  floating-point value are the parameter \<open>parseFloat\<close>, \<open>None\<close> where it throws.
\<close>

definition trimmable :: "char \<Rightarrow> bool" where
  "trimmable c = ((of_char c :: nat) \<le> 32)"

definition java_trim :: "string \<Rightarrow> string" where
  "java_trim s = rev (dropWhile trimmable (rev (dropWhile trimmable s)))"

definition Float_valueOf :: "(string \<Rightarrow> 'f option) \<Rightarrow> string \<Rightarrow> 'f option" where
  "Float_valueOf parseFloat s = parseFloat (java_trim s)"

text \<open>
  The \<open>for\<close> loop of \<open>setLevel\<close> from index \<open>band\<close> on, over the elements of the array
  from there. For each element the argument \<open>Float.valueOf(level[band])\<close> is evaluated
  first, then the method is invoked through the field.
\<close>

fun setLevel_loop ::
  "(string \<Rightarrow> 'f option) \<Rightarrow> nat \<Rightarrow> string list \<Rightarrow> 'f DiracUtils \<Rightarrow> 'f outcome" where
  "setLevel_loop parseFloat band [] st = (None, st)"
| "setLevel_loop parseFloat band (e # es) st =
     (case Float_valueOf parseFloat e of
        None \<Rightarrow> (Some NumberFormatException, st)
      | Some v \<Rightarrow>
          (case invoke (DiracSound_setLevel band v) st of
             (Some err, st') \<Rightarrow> (Some err, st')
           | (None, st') \<Rightarrow> setLevel_loop parseFloat (Suc band) es st'))"

definition setLevel :: "(string \<Rightarrow> 'f option) \<Rightarrow> string \<Rightarrow> 'f DiracUtils \<Rightarrow> 'f outcome" where
  "setLevel parseFloat preset st =
     (let level = java_split preset
      in setLevel_loop parseFloat 0 level (Log_d (Log_setLevel preset) st))"

text \<open>The \<open>setLevel\<close> calls an effect object has received, as (band, value) pairs.\<close>

fun level_of :: "'f dirac_call \<Rightarrow> (nat \<times> 'f) option" where
  "level_of (DiracSound_setLevel b v) = Some (b, v)"
| "level_of _ = None"

definition levels_sent :: "'f DiracSound \<Rightarrow> (nat \<times> 'f) list" where
  "levels_sent d = List.map_filter level_of (calls d)"

text \<open>
  A preset with \<open>N\<close> elements, written out: each element is a number text \<open>c\<close> with
  white space \<open>l\<close> before it and \<open>r\<close> after it, and commas stand between the elements.
\<close>

fun render :: "(string \<times> string \<times> string) list \<Rightarrow> string" where
  "render [] = []"
| "render [(l, c, r)] = l @ c @ r"
| "render ((l, c, r) # e # es) = l @ c @ r @ CHR '','' # render (e # es)"

text \<open>
  A number text is not empty and has no comma and no white space in it; the padding is
  white space of the class \<open>\s\<close>.
\<close>

definition number_text :: "string \<Rightarrow> bool" where
  "number_text c = (c \<noteq> [] \<and> list_all (\<lambda>x. x \<noteq> CHR '','' \<and> \<not> trimmable x) c)"

definition padded_number :: "(string \<Rightarrow> 'f option) \<Rightarrow> string \<times> string \<times> string \<Rightarrow> bool" where
  "padded_number parseFloat e =
     (case e of (l, c, r) \<Rightarrow>
        list_all is_ws l \<and> list_all is_ws r \<and> number_text c \<and> parseFloat c \<noteq> None)"

definition valid_preset :: "(string \<Rightarrow> 'f option) \<Rightarrow> (string \<times> string \<times> string) list \<Rightarrow> bool" where
  "valid_preset parseFloat es = (es \<noteq> [] \<and> list_all (padded_number parseFloat) es)"

section \<open>Properties of the fingerprint bridge\<close>

subsection \<open>Effects\<close>

lemma effects_emit: "effects (emit e st) = effects st @ [e]"
  by (simp add: emit_def)

lemma notifications_emit:
  "notifications (emit e st) = notifications st @ (if is_notification e then [e] else [])"
  by (simp add: notifications_def emit_def)

lemma sysfs_writes_emit:
  "sysfs_writes (emit e st) =
     sysfs_writes st @ (case sysfs_write_of e of None \<Rightarrow> [] | Some w \<Rightarrow> [w])"
  by (simp add: sysfs_writes_def emit_def List.map_filter_def split: option.split)

lemma ext_cmds_emit:
  "ext_cmds (emit e st) = ext_cmds st @ (case ext_cmd_of e of None \<Rightarrow> [] | Some c \<Rightarrow> [c])"
  by (simp add: ext_cmds_def emit_def List.map_filter_def split: option.split)

lemma poll_turn_cmds:
  "ext_cmds (poll_turn w st) =
     ext_cmds st @
       (if poll_rc w < 0 then []
        else [(10, if lseek_rc w = 0 \<and> read_rc w = 1 \<and> read_byte w \<noteq> 0x30 then 1 else 0)])"
  by (simp add: poll_turn_def readBool_def ext_cmds_emit COMMAND_NIT_def PARAM_NIT_630_FOD_def
        PARAM_NIT_NONE_def)

lemma poll_turns_cmds:
  "ext_cmds (poll_turns ws st) =
     ext_cmds st @
       map (\<lambda>w. (10, if lseek_rc w = 0 \<and> read_rc w = 1 \<and> read_byte w \<noteq> 0x30 then 1 else 0))
         (filter (\<lambda>w. 0 \<le> poll_rc w) ws)"
  by (induction ws arbitrary: st) (simp_all add: poll_turn_cmds)

lemma emit_geometry:
  "fodPosX (emit e st) = fodPosX st \<and> fodPosY (emit e st) = fodPosY st \<and>
   fodSize (emit e st) = fodSize st"
  by (simp add: emit_def)

subsection \<open>Splitting and parsing\<close>


lemma Split_unfold:
  "Split s d =
     (case dropWhile (\<lambda>c. c \<notin> set d) s of
        [] \<Rightarrow> [takeWhile (\<lambda>c. c \<notin> set d) s]
      | x # base \<Rightarrow> takeWhile (\<lambda>c. c \<notin> set d) s # Split base d)"
  by (subst Split.simps) (simp add: Let_def)

lemma Split_Nil: "Split [] d = [[]]"
  by (subst Split_unfold) simp

lemma Split_Cons:
  "Split (c # cs) d =
     (if c \<in> set d then [] # Split cs d
      else (c # hd (Split cs d)) # tl (Split cs d))"
proof (cases "c \<in> set d")
  case True
  then show ?thesis by (subst Split_unfold) simp
next
  case False
  define found where "found = dropWhile (\<lambda>c. c \<notin> set d) cs"
  define piece where "piece = takeWhile (\<lambda>c. c \<notin> set d) cs"
  have tw: "takeWhile (\<lambda>c. c \<notin> set d) (c # cs) = c # piece"
    and dw: "dropWhile (\<lambda>c. c \<notin> set d) (c # cs) = found"
    using False by (simp_all add: found_def piece_def)
  have 1: "Split (c # cs) d =
     (case found of [] \<Rightarrow> [c # piece] | x # base \<Rightarrow> (c # piece) # Split base d)"
    by (subst Split_unfold) (unfold tw dw, rule refl)
  have 2: "Split cs d =
     (case found of [] \<Rightarrow> [piece] | x # base \<Rightarrow> piece # Split base d)"
    unfolding found_def piece_def by (rule Split_unfold)
  show ?thesis
    unfolding 1 2 using False by (cases found) simp_all
qed


lemma GetListProperty_cases:
  "GetListProperty props key = (case props key of None \<Rightarrow> [[]] | Some v \<Rightarrow> Split v '','')"
  by (simp add: GetListProperty_def GetProperty_def Split_Nil split: option.split)

lemma parse_values_None:
  "parse_values ss acc = None \<longleftrightarrow> (\<exists>e \<in> set ss. ParseInt e INT32_MIN INT32_MAX = None)"
  by (induction ss arbitrary: acc) (auto split: option.splits)

lemma parse_values_length:
  "parse_values ss acc = Some vs \<Longrightarrow> length vs = length acc + length ss"
proof (induction ss arbitrary: acc)
  case Nil
  then show ?case by simp
next
  case (Cons a ss)
  from Cons.prems obtain x where "parse_values ss (acc @ [x]) = Some vs"
    by (auto split: option.splits)
  from Cons.IH [OF this] show ?case by simp
qed

lemma GetIntListProperty_default:
  assumes "props key = None \<or>
           (\<exists>v. props key = Some v \<and>
              (length (Split v '','') \<noteq> 2 \<or>
               (\<exists>e \<in> set (Split v '',''). ParseInt e INT32_MIN INT32_MAX = None)))"
  shows "GetIntListProperty props key [d1, d2] = ([d1, d2], [Warning_property_unexpected key])"
proof -
  have "length (GetListProperty props key) \<noteq> 2
        \<or> parse_values (GetListProperty props key) [] = None"
  proof (cases "props key")
    case None
    then show ?thesis by (simp add: GetListProperty_cases)
  next
    case (Some v)
    with assms have "length (Split v '','') \<noteq> 2 \<or>
        (\<exists>e \<in> set (Split v '',''). ParseInt e INT32_MIN INT32_MAX = None)"
      by simp
    then show ?thesis using Some by (simp add: GetListProperty_cases parse_values_None)
  qed
  then show ?thesis by (auto simp: GetIntListProperty_def Let_def)
qed

lemma GetIntListProperty_parsed:
  assumes "props key = Some v" and "Split v '','' = [a, b]"
    and "ParseInt a INT32_MIN INT32_MAX = Some x" and "ParseInt b INT32_MIN INT32_MAX = Some y"
  shows "GetIntListProperty props key [d1, d2] = ([x, y], [])"
  using assms by (simp add: GetIntListProperty_def GetListProperty_cases)

lemma GetIntListProperty_pair:
  "\<exists>x y l. GetIntListProperty props key [d1, d2] = ([x, y], l)"
proof (cases "length (GetListProperty props key) \<noteq> 2
              \<or> parse_values (GetListProperty props key) [] = None")
  case True
  then show ?thesis
    by (auto simp: GetIntListProperty_def Let_def)
next
  case False
  then obtain vs where vs: "parse_values (GetListProperty props key) [] = Some vs"
    and len: "length (GetListProperty props key) = 2"
    by auto
  from parse_values_length [OF vs] len have "length vs = 2" by simp
  then obtain x y where "vs = [x, y]"
    by (cases vs; cases "tl vs") auto
  with vs len show ?thesis
    by (simp add: GetIntListProperty_def Let_def)
qed

lemma new_parsed:
  assumes "GetIntListProperty props POSITION_KEY [FOD_DEFAULT_X, FOD_DEFAULT_Y] = ([x, y], l1)"
    and "GetIntListProperty props SIZE_KEY [FOD_DEFAULT_SIZE, FOD_DEFAULT_SIZE] = ([w, h], l2)"
  shows "FingerprintInscreen_new props =
           \<lparr>fodPosX = x, fodPosY = y, fodSize = std_max w h, mCallback = None,
            effects = map Log (l1 @ l2 @ (if w \<noteq> h then [Warning_size_not_square w h] else [])
                        @ [Info_fod_located x y (std_max w h)])\<rparr>"
  using assms by (simp add: FingerprintInscreen_new_def Let_def)

lemma new_position_default:
  assumes "props POSITION_KEY = None \<or>
           (\<exists>v. props POSITION_KEY = Some v \<and>
              (length (Split v '','') \<noteq> 2 \<or>
               (\<exists>e \<in> set (Split v '',''). ParseInt e INT32_MIN INT32_MAX = None)))"
  shows "fodPosX (FingerprintInscreen_new props) = 445 \<and>
         fodPosY (FingerprintInscreen_new props) = 1910"
proof -
  have p: "GetIntListProperty props POSITION_KEY [FOD_DEFAULT_X, FOD_DEFAULT_Y] =
          ([FOD_DEFAULT_X, FOD_DEFAULT_Y], [Warning_property_unexpected POSITION_KEY])"
    by (rule GetIntListProperty_default [of props POSITION_KEY, OF assms])
  obtain w h l where s:
    "GetIntListProperty props SIZE_KEY [FOD_DEFAULT_SIZE, FOD_DEFAULT_SIZE] = ([w, h], l)"
    using GetIntListProperty_pair by blast
  show ?thesis
    by (simp add: new_parsed [OF p s] FOD_DEFAULT_X_def FOD_DEFAULT_Y_def)
qed

lemma new_size_parsed:
  assumes "props SIZE_KEY = Some v" and "Split v '','' = [a, b]"
    and "ParseInt a INT32_MIN INT32_MAX = Some w" and "ParseInt b INT32_MIN INT32_MAX = Some h"
  shows "fodSize (FingerprintInscreen_new props) = std_max w h"
    and "w \<noteq> h \<Longrightarrow> Log (Warning_size_not_square w h) \<in> set (effects (FingerprintInscreen_new props))"
proof -
  obtain x y l where p:
    "GetIntListProperty props POSITION_KEY [FOD_DEFAULT_X, FOD_DEFAULT_Y] = ([x, y], l)"
    using GetIntListProperty_pair by blast
  have s: "GetIntListProperty props SIZE_KEY [FOD_DEFAULT_SIZE, FOD_DEFAULT_SIZE] = ([w, h], [])"
    by (rule GetIntListProperty_parsed [of props SIZE_KEY, OF assms])
  show "fodSize (FingerprintInscreen_new props) = std_max w h"
    by (simp add: new_parsed [OF p s])
  show "w \<noteq> h \<Longrightarrow> Log (Warning_size_not_square w h) \<in> set (effects (FingerprintInscreen_new props))"
    by (simp add: new_parsed [OF p s])
qed

lemma ParseInt_100: "ParseInt ''100'' INT32_MIN INT32_MAX = Some 100"
  by (simp add: ParseInt_def strtoll_all_def isspace_def digit_of_def INT32_MIN_def INT32_MAX_def)

lemma ParseInt_200: "ParseInt ''200'' INT32_MIN INT32_MAX = Some 200"
  by (simp add: ParseInt_def strtoll_all_def isspace_def digit_of_def INT32_MIN_def INT32_MAX_def)

lemma ParseInt_50: "ParseInt ''50'' INT32_MIN INT32_MAX = Some 50"
  by (simp add: ParseInt_def strtoll_all_def isspace_def digit_of_def INT32_MIN_def INT32_MAX_def)

lemma ParseInt_60: "ParseInt ''60'' INT32_MIN INT32_MAX = Some 60"
  by (simp add: ParseInt_def strtoll_all_def isspace_def digit_of_def INT32_MIN_def INT32_MAX_def)

lemma ParseInt_2x0: "ParseInt ''2x0'' INT32_MIN INT32_MAX = None"
  by (simp add: ParseInt_def strtoll_all_def isspace_def digit_of_def INT32_MIN_def INT32_MAX_def)

lemma Split_100_200: "Split ''100,200'' '','' = [''100'', ''200'']"
  by (simp add: Split_Nil Split_Cons)

lemma Split_100_2x0: "Split ''100,2x0'' '','' = [''100'', ''2x0'']"
  by (simp add: Split_Nil Split_Cons)

lemma Split_12_34_56: "Split ''12,34,56'' '','' = [''12'', ''34'', ''56'']"
  by (simp add: Split_Nil Split_Cons)

lemma Split_50_50: "Split ''50,50'' '','' = [''50'', ''50'']"
  by (simp add: Split_Nil Split_Cons)

lemma Split_50_60: "Split ''50,60'' '','' = [''50'', ''60'']"
  by (simp add: Split_Nil Split_Cons)

lemma keys_differ: "SIZE_KEY \<noteq> POSITION_KEY" "POSITION_KEY \<noteq> SIZE_KEY"
  by (simp_all add: SIZE_KEY_def POSITION_KEY_def)

subsection \<open>The geometry is never written after construction\<close>

lemma handleAcquired_geometry:
  "fodPosX (snd (handleAcquired a v st)) = fodPosX st \<and>
   fodPosY (snd (handleAcquired a v st)) = fodPosY st \<and>
   fodSize (snd (handleAcquired a v st)) = fodSize st"
  by (simp add: handleAcquired_def Let_def emit_geometry split: option.split return_status.split)

lemma poll_turn_geometry:
  "fodPosX (poll_turn w st) = fodPosX st \<and> fodPosY (poll_turn w st) = fodPosY st \<and>
   fodSize (poll_turn w st) = fodSize st"
  by (simp add: poll_turn_def readBool_def emit_geometry)

lemma serve_geometry:
  "fodPosX (serve c st) = fodPosX st \<and> fodPosY (serve c st) = fodPosY st \<and>
   fodSize (serve c st) = fodSize st"
  by (cases c)
     (simp_all add: onStartEnroll_def onFinishEnroll_def onPress_def onRelease_def
        onShowFODView_def onHideFODView_def set_file_def emit_geometry handleAcquired_geometry
        handleError_def setLongPressEnabled_def setCallback_def poll_turn_geometry)

lemma serve_all_geometry:
  "fodPosX (serve_all cs st) = fodPosX st \<and> fodPosY (serve_all cs st) = fodPosY st \<and>
   fodSize (serve_all cs st) = fodSize st"
  by (induction cs arbitrary: st) (simp_all add: serve_geometry)


subsection \<open>Claims\<close>

text \<open>
  C1. For every pair of 32-bit integers, \<open>handleAcquired\<close> returns true exactly when a
  callback is registered, \<open>acquiredInfo\<close> is the vendor sentinel 6 and \<open>vendorCode\<close> is 22
  or 23. When it returns true, exactly one notification is invoked on the callback
  (finger-down for 22, finger-up for 23); in every other case, also with no callback
  registered, it returns false and invokes none.
\<close>

theorem handleAcquired_spec:
  "fst (handleAcquired acquiredInfo vendorCode st) =
     (mCallback st \<noteq> None \<and> acquiredInfo = 6 \<and> (vendorCode = 22 \<or> vendorCode = 23))
   \<and> notifications (snd (handleAcquired acquiredInfo vendorCode st)) =
       notifications st @
         (if fst (handleAcquired acquiredInfo vendorCode st)
          then [if vendorCode = 22 then OnFingerDown else OnFingerUp] else [])"
  by (cases "mCallback st")
     (auto simp: handleAcquired_def FINGERPRINT_ACQUIRED_VENDOR_def Let_def notifications_emit
           split: return_status.split)

text \<open>
  The examples of the specification: (6, 22) with a callback, (6, 99), (5, 22), and (6, 23)
  with no callback.
\<close>

theorem handleAcquired_spec_witness:
  "fst (handleAcquired 6 22 \<lparr>fodPosX = 445, fodPosY = 1910, fodSize = 190,
          mCallback = Some \<lparr>onFingerDown_ret = IsOk, onFingerUp_ret = IsOk\<rparr>, effects = []\<rparr>)
   \<and> notifications (snd (handleAcquired 6 22 \<lparr>fodPosX = 445, fodPosY = 1910, fodSize = 190,
          mCallback = Some \<lparr>onFingerDown_ret = IsOk, onFingerUp_ret = IsOk\<rparr>, effects = []\<rparr>))
       = [OnFingerDown]
   \<and> \<not> fst (handleAcquired 6 99 \<lparr>fodPosX = 445, fodPosY = 1910, fodSize = 190,
          mCallback = Some \<lparr>onFingerDown_ret = IsOk, onFingerUp_ret = IsOk\<rparr>, effects = []\<rparr>)
   \<and> \<not> fst (handleAcquired 5 22 \<lparr>fodPosX = 445, fodPosY = 1910, fodSize = 190,
          mCallback = Some \<lparr>onFingerDown_ret = IsOk, onFingerUp_ret = IsOk\<rparr>, effects = []\<rparr>)
   \<and> \<not> fst (handleAcquired 6 23 \<lparr>fodPosX = 445, fodPosY = 1910, fodSize = 190,
          mCallback = None, effects = []\<rparr>)
   \<and> notifications (snd (handleAcquired 6 23 \<lparr>fodPosX = 445, fodPosY = 1910, fodSize = 190,
          mCallback = None, effects = []\<rparr>)) = []"
  using handleAcquired_spec [of 6 22 "\<lparr>fodPosX = 445, fodPosY = 1910, fodSize = 190,
          mCallback = Some \<lparr>onFingerDown_ret = IsOk, onFingerUp_ret = IsOk\<rparr>, effects = []\<rparr>"]
    handleAcquired_spec [of 6 99 "\<lparr>fodPosX = 445, fodPosY = 1910, fodSize = 190,
          mCallback = Some \<lparr>onFingerDown_ret = IsOk, onFingerUp_ret = IsOk\<rparr>, effects = []\<rparr>"]
    handleAcquired_spec [of 5 22 "\<lparr>fodPosX = 445, fodPosY = 1910, fodSize = 190,
          mCallback = Some \<lparr>onFingerDown_ret = IsOk, onFingerUp_ret = IsOk\<rparr>, effects = []\<rparr>"]
    handleAcquired_spec [of 6 23 "\<lparr>fodPosX = 445, fodPosY = 1910, fodSize = 190,
          mCallback = None, effects = []\<rparr>"]
  by (simp add: notifications_def)

text \<open>
  C3. Constructed from a property store whose position property is missing, or has a number
  of comma-separated elements other than two, or has an element \<open>ParseInt\<close> rejects, the
  bridge answers \<open>getPositionX\<close> with 445 and \<open>getPositionY\<close> with 1910. Constructed
  with position \<open>100,200\<close> and size \<open>50,50\<close> it answers 100, 200 and 50. Whatever
  calls and polling turns follow the construction, the three getters keep answering what the
  constructor stored; they have no failing branch.
\<close>

theorem geometry_getters:
  "((props POSITION_KEY = None \<or>
      (\<exists>v. props POSITION_KEY = Some v \<and>
         (length (Split v '','') \<noteq> 2 \<or>
          (\<exists>e \<in> set (Split v '',''). ParseInt e INT32_MIN INT32_MAX = None)))) \<longrightarrow>
     getPositionX (FingerprintInscreen_new props) = 445 \<and>
     getPositionY (FingerprintInscreen_new props) = 1910)
   \<and> (props POSITION_KEY = Some ''100,200'' \<and> props SIZE_KEY = Some ''50,50'' \<longrightarrow>
        getPositionX (FingerprintInscreen_new props) = 100 \<and>
        getPositionY (FingerprintInscreen_new props) = 200 \<and>
        getSize (FingerprintInscreen_new props) = 50)
   \<and> getPositionX (serve_all cs (FingerprintInscreen_new props)) =
        getPositionX (FingerprintInscreen_new props)
   \<and> getPositionY (serve_all cs (FingerprintInscreen_new props)) =
        getPositionY (FingerprintInscreen_new props)
   \<and> getSize (serve_all cs (FingerprintInscreen_new props)) =
        getSize (FingerprintInscreen_new props)"
proof (intro conjI impI)
  assume "props POSITION_KEY = None \<or>
      (\<exists>v. props POSITION_KEY = Some v \<and>
         (length (Split v '','') \<noteq> 2 \<or>
          (\<exists>e \<in> set (Split v '',''). ParseInt e INT32_MIN INT32_MAX = None)))"
  from new_position_default [of props, OF this]
  show "getPositionX (FingerprintInscreen_new props) = 445"
    and "getPositionY (FingerprintInscreen_new props) = 1910"
    by (simp_all add: getPositionX_def getPositionY_def)
next
  assume a: "props POSITION_KEY = Some ''100,200'' \<and> props SIZE_KEY = Some ''50,50''"
  have p: "GetIntListProperty props POSITION_KEY [FOD_DEFAULT_X, FOD_DEFAULT_Y] = ([100, 200], [])"
    using a
    by (simp add: GetIntListProperty_parsed [of props POSITION_KEY "''100,200''",
          OF _ Split_100_200 ParseInt_100 ParseInt_200])
  have s: "GetIntListProperty props SIZE_KEY [FOD_DEFAULT_SIZE, FOD_DEFAULT_SIZE] = ([50, 50], [])"
    using a
    by (simp add: GetIntListProperty_parsed [of props SIZE_KEY "''50,50''",
          OF _ Split_50_50 ParseInt_50 ParseInt_50])
  show "getPositionX (FingerprintInscreen_new props) = 100"
    and "getPositionY (FingerprintInscreen_new props) = 200"
    and "getSize (FingerprintInscreen_new props) = 50"
    by (simp_all add: new_parsed [OF p s] getPositionX_def getPositionY_def getSize_def
        std_max_def)
qed (simp_all add: getPositionX_def getPositionY_def getSize_def serve_all_geometry)

text \<open>
  The theorem at four property stores: none of the two properties set; position
  \<open>12,34,56\<close> (three elements); position \<open>100,2x0\<close> (a malformed element); position
  \<open>100,200\<close> with size \<open>50,50\<close>, followed by a press, a release and an acquired event.
\<close>

theorem geometry_getters_witness:
  "getPositionX (FingerprintInscreen_new (\<lambda>k. None)) = 445
   \<and> getPositionY (FingerprintInscreen_new (\<lambda>k. None)) = 1910
   \<and> getPositionX (FingerprintInscreen_new [POSITION_KEY \<mapsto> ''12,34,56'']) = 445
   \<and> getPositionY (FingerprintInscreen_new [POSITION_KEY \<mapsto> ''12,34,56'']) = 1910
   \<and> getPositionX (FingerprintInscreen_new [POSITION_KEY \<mapsto> ''100,2x0'']) = 445
   \<and> getPositionY (FingerprintInscreen_new [POSITION_KEY \<mapsto> ''100,2x0'']) = 1910
   \<and> getPositionX (serve_all [Call_onPress, Call_onRelease, Call_handleAcquired 6 22]
        (FingerprintInscreen_new [POSITION_KEY \<mapsto> ''100,200'', SIZE_KEY \<mapsto> ''50,50''])) = 100
   \<and> getPositionY (serve_all [Call_onPress, Call_onRelease, Call_handleAcquired 6 22]
        (FingerprintInscreen_new [POSITION_KEY \<mapsto> ''100,200'', SIZE_KEY \<mapsto> ''50,50''])) = 200
   \<and> getSize (serve_all [Call_onPress, Call_onRelease, Call_handleAcquired 6 22]
        (FingerprintInscreen_new [POSITION_KEY \<mapsto> ''100,200'', SIZE_KEY \<mapsto> ''50,50''])) = 50"
  using geometry_getters [of "\<lambda>k. None" "[]"]
    geometry_getters [of "[POSITION_KEY \<mapsto> ''12,34,56'']" "[]"]
    geometry_getters [of "[POSITION_KEY \<mapsto> ''100,2x0'']" "[]"]
    geometry_getters [of "[POSITION_KEY \<mapsto> ''100,200'', SIZE_KEY \<mapsto> ''50,50'']"
      "[Call_onPress, Call_onRelease, Call_handleAcquired 6 22]"]
  by (simp add: keys_differ Split_12_34_56 Split_100_2x0 ParseInt_2x0)

text \<open>
  C7. When the size property has two elements that parse to \<open>w\<close> and \<open>h\<close> with
  \<open>w \<noteq> h\<close>, the size the constructor stores is the larger of the two as signed
  numbers, and the warning about the non-square size, with both values, is among the log
  lines of the construction.
\<close>

theorem size_not_square:
  "props SIZE_KEY = Some v \<and> Split v '','' = [a, b] \<and>
   ParseInt a INT32_MIN INT32_MAX = Some w \<and> ParseInt b INT32_MIN INT32_MAX = Some h \<and>
   w \<noteq> h \<longrightarrow>
     sint (getSize (FingerprintInscreen_new props)) = max (sint w) (sint h)
     \<and> getSize (FingerprintInscreen_new props) = (if sint w < sint h then h else w)
     \<and> Log (Warning_size_not_square w h) \<in> set (effects (FingerprintInscreen_new props))"
proof (intro impI, elim conjE)
  assume a: "props SIZE_KEY = Some v" "Split v '','' = [a, b]"
    "ParseInt a INT32_MIN INT32_MAX = Some w" "ParseInt b INT32_MIN INT32_MAX = Some h"
    and ne: "w \<noteq> h"
  have sz: "getSize (FingerprintInscreen_new props) = std_max w h"
    by (simp add: getSize_def new_size_parsed(1) [of props, OF a])
  have "Log (Warning_size_not_square w h) \<in> set (effects (FingerprintInscreen_new props))"
    by (rule new_size_parsed(2) [of props, OF a ne])
  then show "sint (getSize (FingerprintInscreen_new props)) = max (sint w) (sint h)
     \<and> getSize (FingerprintInscreen_new props) = (if sint w < sint h then h else w)
     \<and> Log (Warning_size_not_square w h) \<in> set (effects (FingerprintInscreen_new props))"
    by (simp add: sz std_max_def max_def)
qed

text \<open>The example of the specification: size \<open>50,60\<close> resolves to 60, with the warning.\<close>

theorem size_not_square_witness:
  "getSize (FingerprintInscreen_new [SIZE_KEY \<mapsto> ''50,60'']) = 60
   \<and> Log (Warning_size_not_square 50 60)
        \<in> set (effects (FingerprintInscreen_new [SIZE_KEY \<mapsto> ''50,60'']))"
  using size_not_square [of "[SIZE_KEY \<mapsto> ''50,60'']" "''50,60''" "''50''" "''60''" 50 60]
  by (simp add: Split_50_60 ParseInt_50 ParseInt_60)

text \<open>
  C4, as the code has it. A turn of the polling loop whose \<open>poll\<close> did not fail issues
  exactly one \<open>extCmd\<close> call, with command 10. Its parameter is 1 when the seek to the
  start of the file succeeded, the read returned one byte, and that byte is not the
  character \<open>'0'\<close> (0x30); it is 0 when the byte is \<open>'0'\<close> and when the seek or the read
  failed. A turn whose \<open>poll\<close> failed issues no call.
  So the thread, once the file is open, issues one call per turn that polled without
  error, in the order of the turns.
\<close>

theorem poll_turn_ext_cmd:
  "ext_cmds (poll_turn w st) =
     ext_cmds st @
       (if poll_rc w < 0 then []
        else [(10, if lseek_rc w = 0 \<and> read_rc w = 1 \<and> read_byte w \<noteq> 0x30 then 1 else 0)])
   \<and> (0 \<le> fd \<longrightarrow>
        ext_cmds (fod_ui_thread fd ws st) =
          ext_cmds st @
            map (\<lambda>w. (10, if lseek_rc w = 0 \<and> read_rc w = 1 \<and> read_byte w \<noteq> 0x30 then 1 else 0))
              (filter (\<lambda>w. 0 \<le> poll_rc w) ws))"
  by (simp add: poll_turn_cmds poll_turns_cmds fod_ui_thread_def)

text \<open>
  Five turns of the thread: the text \<open>1\<close>, a failed poll, the text \<open>0\<close>, a read at
  the end of the file, a failed seek.
\<close>

theorem poll_turn_ext_cmd_witness:
  "ext_cmds (fod_ui_thread 3
      [\<lparr>poll_rc = 1, lseek_rc = 0, read_rc = 1, read_byte = 0x31\<rparr>,
       \<lparr>poll_rc = -1, lseek_rc = 0, read_rc = 1, read_byte = 0x31\<rparr>,
       \<lparr>poll_rc = 1, lseek_rc = 0, read_rc = 1, read_byte = 0x30\<rparr>,
       \<lparr>poll_rc = 1, lseek_rc = 0, read_rc = 0, read_byte = 0x31\<rparr>,
       \<lparr>poll_rc = 1, lseek_rc = -1, read_rc = 1, read_byte = 0x31\<rparr>]
      \<lparr>fodPosX = 445, fodPosY = 1910, fodSize = 190, mCallback = None, effects = []\<rparr>)
     = [(10, 1), (10, 0), (10, 0), (10, 0)]"
  using poll_turn_ext_cmd [of _
      "\<lparr>fodPosX = 445, fodPosY = 1910, fodSize = 190, mCallback = None, effects = []\<rparr>" 3
      "[\<lparr>poll_rc = 1, lseek_rc = 0, read_rc = 1, read_byte = 0x31\<rparr>,
       \<lparr>poll_rc = -1, lseek_rc = 0, read_rc = 1, read_byte = 0x31\<rparr>,
       \<lparr>poll_rc = 1, lseek_rc = 0, read_rc = 1, read_byte = 0x30\<rparr>,
       \<lparr>poll_rc = 1, lseek_rc = 0, read_rc = 0, read_byte = 0x31\<rparr>,
       \<lparr>poll_rc = 1, lseek_rc = -1, read_rc = 1, read_byte = 0x31\<rparr>]"]
  by (simp add: ext_cmds_def List.map_filter_def)

text \<open>
  The claim as stated fails: the byte 0x30 (the text \<open>0\<close> of the attribute file) is not
  zero and gives parameter 0, and the zero byte gives parameter 1.
\<close>

theorem poll_turn_nonzero_byte_counterexample:
  "(0x30 :: 8 word) \<noteq> 0
   \<and> ext_cmds (poll_turn \<lparr>poll_rc = 1, lseek_rc = 0, read_rc = 1, read_byte = 0x30\<rparr>
        \<lparr>fodPosX = 445, fodPosY = 1910, fodSize = 190, mCallback = None, effects = []\<rparr>)
       = [(10, 0)]
   \<and> ext_cmds (poll_turn \<lparr>poll_rc = 1, lseek_rc = 0, read_rc = 1, read_byte = 0\<rparr>
        \<lparr>fodPosX = 445, fodPosY = 1910, fodSize = 190, mCallback = None, effects = []\<rparr>)
       = [(10, 1)]"
  by (simp add: poll_turn_def readBool_def ext_cmds_emit COMMAND_NIT_def PARAM_NIT_630_FOD_def
        PARAM_NIT_NONE_def)
     (simp add: ext_cmds_def List.map_filter_def)

text \<open>
  C8. \<open>onPress\<close> followed by \<open>onRelease\<close> adds exactly two effects: the value 1 and then
  the value 0, both streamed to the \<open>fod_pressed\<close> path. No other file is written.
\<close>

theorem onPress_onRelease_writes:
  "effects (onRelease (onPress st)) =
     effects st @ [SysfsWrite FOD_PRESSED_PATH FOD_PRESSED_ON, SysfsWrite FOD_PRESSED_PATH FOD_PRESSED_OFF]
   \<and> sysfs_writes (onRelease (onPress st)) =
       sysfs_writes st @
         [(''/sys/devices/platform/soc/soc:qcom,dsi-display-primary/fod_pressed'', 1),
          (''/sys/devices/platform/soc/soc:qcom,dsi-display-primary/fod_pressed'', 0)]"
  by (simp add: onPress_def onRelease_def set_file_def effects_emit sysfs_writes_emit
        FOD_PRESSED_PATH_def FOD_PRESSED_ON_def FOD_PRESSED_OFF_def)

text \<open>
  C9. With a callback registered, \<open>acquiredInfo\<close> 6 and \<open>vendorCode\<close> 22 or 23,
  \<open>handleAcquired\<close> returns true whatever status the notification comes back with. A
  status that is not ok leaves one error line in the log, after the notification, and
  nothing else.
\<close>

theorem handleAcquired_callback_failure:
  "mCallback st = Some cb \<and> acquiredInfo = 6 \<and> (vendorCode = 22 \<or> vendorCode = 23) \<longrightarrow>
     fst (handleAcquired acquiredInfo vendorCode st) = True
     \<and> effects (snd (handleAcquired acquiredInfo vendorCode st)) =
         effects st @
           (if vendorCode = 22
            then OnFingerDown #
                   (case onFingerDown_ret cb of IsOk \<Rightarrow> [] | NotOk d \<Rightarrow> [Log (Error_FingerDown d)])
            else OnFingerUp #
                   (case onFingerUp_ret cb of IsOk \<Rightarrow> [] | NotOk d \<Rightarrow> [Log (Error_FingerUp d)]))"
  by (auto simp: handleAcquired_def FINGERPRINT_ACQUIRED_VENDOR_def Let_def effects_emit
           split: return_status.split)

text \<open>A callback whose finger-down notification fails with a dead remote object.\<close>

theorem handleAcquired_callback_failure_witness:
  "fst (handleAcquired 6 22 \<lparr>fodPosX = 445, fodPosY = 1910, fodSize = 190,
          mCallback = Some \<lparr>onFingerDown_ret = NotOk ''DEAD_OBJECT'', onFingerUp_ret = IsOk\<rparr>,
          effects = []\<rparr>) = True
   \<and> effects (snd (handleAcquired 6 22 \<lparr>fodPosX = 445, fodPosY = 1910, fodSize = 190,
          mCallback = Some \<lparr>onFingerDown_ret = NotOk ''DEAD_OBJECT'', onFingerUp_ret = IsOk\<rparr>,
          effects = []\<rparr>)) = [OnFingerDown, Log (Error_FingerDown ''DEAD_OBJECT'')]"
  using handleAcquired_callback_failure [of "\<lparr>fodPosX = 445, fodPosY = 1910, fodSize = 190,
          mCallback = Some \<lparr>onFingerDown_ret = NotOk ''DEAD_OBJECT'', onFingerUp_ret = IsOk\<rparr>,
          effects = []\<rparr>" "\<lparr>onFingerDown_ret = NotOk ''DEAD_OBJECT'', onFingerUp_ret = IsOk\<rparr>"
          6 22]
  by simp

section \<open>Properties of the audio effect forwarder\<close>

subsection \<open>The split of a preset\<close>

lemma ws_trimmable: "is_ws c \<Longrightarrow> trimmable c"
  by (auto simp: is_ws_def trimmable_def)

lemma comma_not_ws: "\<not> is_ws (CHR '','')"
  by (simp add: is_ws_def)

lemma match_delim_solid:
  "\<not> is_ws x \<Longrightarrow> x \<noteq> CHR '','' \<Longrightarrow> match_delim (x # s) = None"
  by (simp add: match_delim_def)

lemma match_delim_ws_solid:
  "list_all is_ws l \<Longrightarrow> \<not> is_ws x \<Longrightarrow> x \<noteq> CHR '','' \<Longrightarrow> match_delim (l @ x # s) = None"
  by (simp add: match_delim_def dropWhile_append3 list_all_iff)

lemma match_delim_ws: "list_all is_ws r \<Longrightarrow> match_delim r = None"
proof -
  assume "list_all is_ws r"
  then have d: "dropWhile is_ws r = []" by (simp add: list_all_iff)
  show ?thesis unfolding match_delim_def d by simp
qed

lemma match_delim_comma:
  "list_all is_ws r \<Longrightarrow> match_delim (r @ CHR '','' # s) = Some (dropWhile is_ws s)"
  by (simp add: match_delim_def dropWhile_append3 list_all_iff comma_not_ws)

lemma find_delim_ws: "list_all is_ws r \<Longrightarrow> find_delim r = None"
  by (induction r) (simp_all add: match_delim_ws)

lemma find_delim_comma:
  "list_all is_ws r \<Longrightarrow> find_delim (r @ CHR '','' # s) = Some ([], dropWhile is_ws s)"
  using match_delim_comma [of r s] by (cases r) (simp_all add: match_delim_comma [of "[]", simplified])

lemma find_delim_solid:
  "list_all (\<lambda>x. x \<noteq> CHR '','' \<and> \<not> is_ws x) c \<Longrightarrow>
   find_delim (c @ s) = map_option (\<lambda>(seg, r). (c @ seg, r)) (find_delim s)"
  by (induction c) (auto simp: match_delim_solid option.map_id split: option.splits)

lemma find_delim_pad:
  "list_all is_ws l \<Longrightarrow> \<not> is_ws x \<Longrightarrow> x \<noteq> CHR '','' \<Longrightarrow>
   find_delim (l @ x # s) = map_option (\<lambda>(seg, r). (l @ seg, r)) (find_delim (x # s))"
proof (induction l)
  case Nil
  then show ?case by (simp add: option.map_ident case_prod_unfold option.map_comp comp_def)
next
  case (Cons w l)
  then have "match_delim ((w # l) @ x # s) = None"
    by (intro match_delim_ws_solid) simp_all
  with Cons show ?case by (auto split: option.splits)
qed

lemma java_trim_padded:
  assumes "list_all trimmable l" and "list_all trimmable r"
    and "c \<noteq> []" and "list_all (\<lambda>x. \<not> trimmable x) c"
  shows "java_trim (l @ c @ r) = c"
proof -
  from assms(3,4) have h: "\<not> trimmable (hd c)" and t: "\<not> trimmable (hd (rev c))"
    by (simp_all add: list_all_iff hd_rev)
  from assms(3) have rc: "rev c \<noteq> []" by simp
  have "dropWhile trimmable (l @ c @ r) = c @ r"
    using assms(1,3) h by (cases c) (simp_all add: dropWhile_append3 list_all_iff)
  moreover have "dropWhile trimmable (rev r @ rev c) = rev c"
    using assms(2) rc t by (cases "rev c") (simp_all add: dropWhile_append3 list_all_iff)
  ultimately show ?thesis by (simp add: java_trim_def)
qed

lemma pieces_unfold:
  "pieces s = (case find_delim s of None \<Rightarrow> [s] | Some (seg, r) \<Rightarrow> seg # pieces r)"
  by (subst pieces.simps) (rule refl)

lemma drop_trailing_empty_id: "xs \<noteq> [] \<Longrightarrow> last xs \<noteq> [] \<Longrightarrow> drop_trailing_empty xs = xs"
  by (cases xs rule: rev_cases) (simp_all add: drop_trailing_empty_def)

lemma pieces_not_Nil: "pieces s \<noteq> []"
  by (subst pieces_unfold) (simp split: option.split)

lemma java_split_pieces: "last (pieces s) \<noteq> [] \<Longrightarrow> java_split s = pieces s"
proof (cases "find_delim s")
  case None
  then show ?thesis by (simp add: java_split_def pieces_unfold [of s])
next
  case (Some a)
  assume "last (pieces s) \<noteq> []"
  with Some show ?thesis
    by (simp add: java_split_def drop_trailing_empty_id pieces_not_Nil)
qed

lemma number_text_solid:
  "number_text c \<Longrightarrow> list_all (\<lambda>x. x \<noteq> CHR '','' \<and> \<not> is_ws x) c"
  by (auto simp: number_text_def list_all_iff dest: ws_trimmable)

lemma number_text_untrimmable:
  "number_text c \<Longrightarrow> c \<noteq> [] \<and> list_all (\<lambda>x. \<not> trimmable x) c"
  by (auto simp: number_text_def list_all_iff)

lemma find_delim_element:
  assumes "list_all is_ws l" and "number_text c"
  shows "find_delim (l @ c @ s) = map_option (\<lambda>(seg, r). (l @ c @ seg, r)) (find_delim s)"
proof -
  from assms(2) obtain x c' where c: "c = x # c'"
    by (cases c) (simp_all add: number_text_def)
  from number_text_solid [OF assms(2)] c
  have x: "\<not> is_ws x" "x \<noteq> CHR '',''" by simp_all
  have "find_delim (l @ x # c' @ s) =
          map_option (\<lambda>(seg, r). (l @ seg, r)) (find_delim (x # c' @ s))"
    by (rule find_delim_pad [OF assms(1) x])
  moreover have "find_delim (c @ s) = map_option (\<lambda>(seg, r). (c @ seg, r)) (find_delim s)"
    by (rule find_delim_solid [OF number_text_solid [OF assms(2)]])
  ultimately show ?thesis
    by (simp add: c option.map_comp comp_def case_prod_unfold)
qed

lemma render_Cons:
  "render ((l, c, r) # es) = l @ c @ r @ (if es = [] then [] else CHR '','' # render es)"
  by (cases es) auto

lemma dropWhile_render:
  assumes "list_all is_ws l" and "number_text c"
  shows "dropWhile is_ws (render ((l, c, r) # es)) = render (([], c, r) # es)"
proof -
  from assms(2) obtain x c' where c: "c = x # c'"
    by (cases c) (simp_all add: number_text_def)
  from number_text_solid [OF assms(2)] c have "\<not> is_ws x" by simp
  with assms(1) show ?thesis
    by (simp add: render_Cons c dropWhile_append3 list_all_iff)
qed

lemma pieces_render:
  assumes "list_all is_ws l" and "number_text c" and "list_all is_ws r"
    and "list_all (padded_number parseFloat) es"
  shows "map java_trim (pieces (render ((l, c, r) # es))) = c # map (\<lambda>(l, c, r). c) es
         \<and> last (pieces (render ((l, c, r) # es))) \<noteq> []"
  using assms
proof (induction es arbitrary: l c r)
  case Nil
  have "find_delim (l @ c @ r) = None"
    by (simp add: find_delim_element [OF Nil(1,2)] find_delim_ws [OF Nil(3)])
  then have p: "pieces (l @ c @ r) = [l @ c @ r]"
    by (simp add: pieces_unfold [of "l @ c @ r"])
  have "java_trim (l @ c @ r) = c"
    using Nil number_text_untrimmable [OF Nil(2)]
    by (intro java_trim_padded) (auto simp: list_all_iff dest: ws_trimmable)
  moreover have "l @ c @ r \<noteq> []"
    using number_text_untrimmable [OF Nil(2)] by simp
  ultimately show ?case by (simp add: p)
next
  case (Cons e es)
  obtain l2 c2 r2 where e: "e = (l2, c2, r2)" by (cases e)
  from Cons.prems(4) have pe: "padded_number parseFloat e"
    and rest: "list_all (padded_number parseFloat) es"
    by simp_all
  from pe e have e_ok: "list_all is_ws l2" "number_text c2" "list_all is_ws r2"
    by (simp_all add: padded_number_def)
  have "find_delim (l @ c @ r @ CHR '','' # render ((l2, c2, r2) # es)) =
          Some (l @ c, dropWhile is_ws (render ((l2, c2, r2) # es)))"
    by (simp add: find_delim_element [OF Cons.prems(1,2)] find_delim_comma [OF Cons.prems(3)])
  then have f: "find_delim (render ((l, c, r) # e # es)) =
                  Some (l @ c, render (([], c2, r2) # es))"
    by (simp add: e dropWhile_render [OF e_ok(1,2)])
  have p: "pieces (render ((l, c, r) # e # es)) = (l @ c) # pieces (render (([], c2, r2) # es))"
    using f by (subst pieces_unfold) simp
  have ih: "map java_trim (pieces (render (([], c2, r2) # es))) = c2 # map (\<lambda>(l, c, r). c) es
            \<and> last (pieces (render (([], c2, r2) # es))) \<noteq> []"
    by (rule Cons.IH) (simp_all add: e_ok rest)
  have "java_trim (l @ c @ []) = c"
    using Cons.prems(1) number_text_untrimmable [OF Cons.prems(2)]
    by (intro java_trim_padded) (auto simp: list_all_iff dest: ws_trimmable)
  then have t: "java_trim (l @ c) = c" by simp
  show ?case
    using ih p by (simp add: t e pieces_not_Nil)
qed

lemma java_split_render:
  assumes "valid_preset parseFloat es"
  shows "java_split (render es) = pieces (render es)"
    and "map java_trim (pieces (render es)) = map (\<lambda>(l, c, r). c) es"
proof -
  from assms obtain l c r es' where es: "es = (l, c, r) # es'"
    by (cases es) (auto simp: valid_preset_def)
  from assms es have pe: "padded_number parseFloat (l, c, r)"
    and rest: "list_all (padded_number parseFloat) es'"
    by (simp_all add: valid_preset_def)
  from pe have "list_all is_ws l" "number_text c" "list_all is_ws r"
    by (simp_all add: padded_number_def)
  note ok = this rest
  from pieces_render [OF ok]
  show "java_split (render es) = pieces (render es)"
    and "map java_trim (pieces (render es)) = map (\<lambda>(l, c, r). c) es"
    by (simp_all add: es java_split_pieces)
qed

lemma setLevel_loop_forwards:
  assumes "list_all (\<lambda>p. Float_valueOf parseFloat p \<noteq> None) ps"
    and "mDiracSound st = Some d"
  shows "setLevel_loop parseFloat band ps st =
           (None, st\<lparr>mDiracSound := Some (d\<lparr>calls := calls d @
              map (\<lambda>(i, v). DiracSound_setLevel i v)
                (zip [band..<band + length ps]
                   (map (\<lambda>p. the (Float_valueOf parseFloat p)) ps))\<rparr>)\<rparr>)"
  using assms
proof (induction ps arbitrary: band st d)
  case Nil
  then show ?case by simp
next
  case (Cons p ps)
  from Cons.prems(1) obtain v where v: "Float_valueOf parseFloat p = Some v"
    and rest: "list_all (\<lambda>p. Float_valueOf parseFloat p \<noteq> None) ps"
    by auto
  let ?d1 = "forward (DiracSound_setLevel band v) d"
  let ?st1 = "st\<lparr>mDiracSound := Some ?d1\<rparr>"
  have inv: "invoke (DiracSound_setLevel band v) st = (None, ?st1)"
    by (simp add: invoke_def Cons.prems(2))
  have step: "setLevel_loop parseFloat band (p # ps) st = setLevel_loop parseFloat (Suc band) ps ?st1"
    by (simp add: v inv)
  have ih: "setLevel_loop parseFloat (Suc band) ps ?st1 =
           (None, ?st1\<lparr>mDiracSound := Some (?d1\<lparr>calls := calls ?d1 @
              map (\<lambda>(i, v). DiracSound_setLevel i v)
                (zip [Suc band..<Suc band + length ps]
                   (map (\<lambda>p. the (Float_valueOf parseFloat p)) ps))\<rparr>)\<rparr>)"
    by (rule Cons.IH [OF rest]) simp
  have idx: "[band..<band + length (p # ps)] = band # [Suc band..<Suc band + length ps]"
    by (subst upt_rec) simp
  show ?case
    unfolding step ih idx by (simp add: forward_def v)
qed

lemma setLevel_loop_null:
  assumes "Float_valueOf parseFloat p = Some v" and "mDiracSound st = None"
  shows "setLevel_loop parseFloat band (p # ps) st = (Some NullPointerException, st)"
  using assms by (simp add: invoke_def)

lemma valid_preset_values:
  assumes "valid_preset parseFloat es"
  shows "list_all (\<lambda>p. Float_valueOf parseFloat p \<noteq> None) (java_split (render es))"
    and "map (\<lambda>p. the (Float_valueOf parseFloat p)) (java_split (render es)) =
           map (\<lambda>(l, c, r). the (parseFloat c)) es"
    and "length (java_split (render es)) = length es"
proof -
  let ?ps = "java_split (render es)"
  have t: "map java_trim ?ps = map (\<lambda>(l, c, r). c) es"
    using java_split_render [OF assms] by simp
  then have len: "length ?ps = length es"
    using length_map [of java_trim ?ps] by simp
  show "length ?ps = length es" by (rule len)
  have nth: "java_trim (?ps ! i) = (\<lambda>(l, c, r). c) (es ! i)" if "i < length es" for i
    using that len nth_map [of i ?ps java_trim] nth_map [of i es "\<lambda>(l, c, r). c"] t by simp
  have ok: "parseFloat ((\<lambda>(l, c, r). c) (es ! i)) \<noteq> None" if "i < length es" for i
  proof -
    from assms that have "padded_number parseFloat (es ! i)"
      by (simp add: valid_preset_def list_all_length)
    then show ?thesis by (cases "es ! i") (simp add: padded_number_def)
  qed
  show "list_all (\<lambda>p. Float_valueOf parseFloat p \<noteq> None) ?ps"
    unfolding list_all_length using nth ok len by (simp add: Float_valueOf_def)
  show "map (\<lambda>p. the (Float_valueOf parseFloat p)) ?ps = map (\<lambda>(l, c, r). the (parseFloat c)) es"
  proof (rule nth_equalityI)
    show "length (map (\<lambda>p. the (Float_valueOf parseFloat p)) ?ps) =
          length (map (\<lambda>(l, c, r). the (parseFloat c)) es)"
      by (simp add: len)
  next
    fix i assume "i < length (map (\<lambda>p. the (Float_valueOf parseFloat p)) ?ps)"
    then have i: "i < length es" by (simp add: len)
    then show "map (\<lambda>p. the (Float_valueOf parseFloat p)) ?ps ! i =
               map (\<lambda>(l, c, r). the (parseFloat c)) es ! i"
      using nth [OF i] len by (cases "es ! i") (simp add: Float_valueOf_def)
  qed
qed

lemma initialize_again: "initialize (initialize st) = initialize st"
  by (simp add: initialize_def)

lemma initialize_funpow: "(initialize ^^ Suc n) st = initialize st"
  by (induction n) (simp_all add: initialize_again)

lemma levels_sent_forwarded:
  "levels_sent (d\<lparr>calls := calls d @ map (\<lambda>(band, v). DiracSound_setLevel band v) xs\<rparr>) =
     levels_sent d @ xs"
proof -
  have "List.map_filter level_of (map (\<lambda>(band, v). DiracSound_setLevel band v) xs) = xs"
    by (induction xs) (auto simp: List.map_filter_def)
  then show ?thesis
    by (simp add: levels_sent_def List.map_filter_def)
qed

subsection \<open>Claims\<close>

text \<open>
  C2. Take a preset of \<open>N \<ge> 1\<close> elements, each a number text that \<open>parseFloat\<close>
  accepts, with white space around it, and commas between the elements, and let the effect
  object exist. Then the split has \<open>N\<close> elements which, trimmed, are the number texts in
  input order; \<open>setLevel\<close> throws nothing; and it forwards exactly \<open>N\<close> calls to the
  effect object, the call at position \<open>i\<close> (from 0) carrying band \<open>i\<close> and the parsed
  value of the \<open>i\<close>-th number text. (The white space next to a comma is removed by the
  split, that at the two ends of the preset by \<open>Float.valueOf\<close>.)
\<close>

theorem setLevel_forwards:
  "valid_preset parseFloat es \<and> mDiracSound st = Some d \<longrightarrow>
     length (java_split (render es)) = length es
     \<and> map java_trim (java_split (render es)) = map (\<lambda>(l, c, r). c) es
     \<and> fst (setLevel parseFloat (render es) st) = None
     \<and> mDiracSound (snd (setLevel parseFloat (render es) st)) =
         Some (d\<lparr>calls := calls d @
           map (\<lambda>(band, v). DiracSound_setLevel band v)
             (zip [0..<length es] (map (\<lambda>(l, c, r). the (parseFloat c)) es))\<rparr>)
     \<and> map_option levels_sent (mDiracSound (snd (setLevel parseFloat (render es) st))) =
         Some (levels_sent d @
           zip [0..<length es] (map (\<lambda>(l, c, r). the (parseFloat c)) es))"
proof (intro impI, elim conjE)
  assume v: "valid_preset parseFloat es" and d: "mDiracSound st = Some d"
  let ?ps = "java_split (render es)"
  let ?st = "Log_d (Log_setLevel (render es)) st"
  have d': "mDiracSound ?st = Some d" by (simp add: Log_d_def d)
  have run: "setLevel parseFloat (render es) st =
           (None, ?st\<lparr>mDiracSound := Some (d\<lparr>calls := calls d @
              map (\<lambda>(i, v). DiracSound_setLevel i v)
                (zip [0..<0 + length ?ps]
                   (map (\<lambda>p. the (Float_valueOf parseFloat p)) ?ps))\<rparr>)\<rparr>)"
    unfolding setLevel_def Let_def
    by (rule setLevel_loop_forwards [OF valid_preset_values(1) [OF v] d'])
  have t: "map java_trim ?ps = map (\<lambda>(l, c, r). c) es"
    using java_split_render [OF v] by simp
  show "length ?ps = length es
     \<and> map java_trim ?ps = map (\<lambda>(l, c, r). c) es
     \<and> fst (setLevel parseFloat (render es) st) = None
     \<and> mDiracSound (snd (setLevel parseFloat (render es) st)) =
         Some (d\<lparr>calls := calls d @
           map (\<lambda>(band, v). DiracSound_setLevel band v)
             (zip [0..<length es] (map (\<lambda>(l, c, r). the (parseFloat c)) es))\<rparr>)
     \<and> map_option levels_sent (mDiracSound (snd (setLevel parseFloat (render es) st))) =
         Some (levels_sent d @
           zip [0..<length es] (map (\<lambda>(l, c, r). the (parseFloat c)) es))"
    by (simp add: run t valid_preset_values(2,3) [OF v] levels_sent_forwarded)
qed

text \<open>
  The preset \<open>" 1.5 ,2 "\<close>, with the number text itself standing for its value: two
  calls, bands 0 and 1.
\<close>

theorem setLevel_forwards_witness:
  "java_split '' 1.5 ,2 '' = ['' 1.5'', ''2 '']
   \<and> fst (setLevel Some '' 1.5 ,2 ''
        \<lparr>mDiracSound = Some \<lparr>ctor_args = (0, 0), object_no = 0, calls = []\<rparr>,
         constructed = 1, logcat = []\<rparr>) = None
   \<and> mDiracSound (snd (setLevel Some '' 1.5 ,2 ''
        \<lparr>mDiracSound = Some \<lparr>ctor_args = (0, 0), object_no = 0, calls = []\<rparr>,
         constructed = 1, logcat = []\<rparr>)) =
       Some \<lparr>ctor_args = (0, 0), object_no = 0,
             calls = [DiracSound_setLevel 0 ''1.5'', DiracSound_setLevel 1 ''2'']\<rparr>"
proof -
  have v: "valid_preset Some [('' '', ''1.5'', '' ''), ([], ''2'', '' '')]"
    by (simp add: valid_preset_def padded_number_def number_text_def is_ws_def trimmable_def)
  have r: "render [('' '', ''1.5'', '' ''), ([], ''2'', '' '')] = '' 1.5 ,2 ''"
    by simp
  have s: "java_split '' 1.5 ,2 '' = ['' 1.5'', ''2 '']"
    by (simp add: java_split_def pieces_unfold drop_trailing_empty_def match_delim_def is_ws_def)
  from setLevel_forwards [of Some "[('' '', ''1.5'', '' ''), ([], ''2'', '' '')]"
      "\<lparr>mDiracSound = Some \<lparr>ctor_args = (0, 0), object_no = 0, calls = []\<rparr>,
         constructed = 1, logcat = []\<rparr>" "\<lparr>ctor_args = (0, 0), object_no = 0, calls = []\<rparr>"] v
  show ?thesis unfolding r by (simp add: s)
qed

text \<open>
  C5. \<open>initialize\<close> is idempotent. Starting with no effect object, any number
  \<open>n + 1\<close> of calls runs the constructor once and leaves the handle the first call
  stored; on a state that has an effect object, a call changes nothing.
\<close>

theorem initialize_idempotent:
  "initialize (initialize st) = initialize st
   \<and> (mDiracSound st \<noteq> None \<longrightarrow> initialize st = st)
   \<and> (mDiracSound st = None \<longrightarrow>
        constructed ((initialize ^^ Suc n) st) = Suc (constructed st)
        \<and> mDiracSound ((initialize ^^ Suc n) st) = mDiracSound (initialize st)
        \<and> mDiracSound (initialize st) \<noteq> None)"
  unfolding initialize_funpow by (simp add: initialize_def)

theorem initialize_idempotent_witness:
  "constructed ((initialize ^^ 2) \<lparr>mDiracSound = (None :: string DiracSound option),
       constructed = 0, logcat = []\<rparr>) = 1
   \<and> mDiracSound ((initialize ^^ 2) \<lparr>mDiracSound = (None :: string DiracSound option),
       constructed = 0, logcat = []\<rparr>)
       = Some \<lparr>ctor_args = (0, 0), object_no = 0, calls = []\<rparr>
   \<and> initialize \<lparr>mDiracSound = Some \<lparr>ctor_args = (0, 0), object_no = 0,
         calls = [DiracSound_setMusic 1 :: string dirac_call]\<rparr>, constructed = 1, logcat = []\<rparr>
       = \<lparr>mDiracSound = Some \<lparr>ctor_args = (0, 0), object_no = 0,
         calls = [DiracSound_setMusic 1]\<rparr>, constructed = 1, logcat = []\<rparr>"
  using initialize_idempotent [of "\<lparr>mDiracSound = (None :: string DiracSound option),
       constructed = 0, logcat = []\<rparr>" 1]
    initialize_idempotent [of "\<lparr>mDiracSound = Some \<lparr>ctor_args = (0, 0), object_no = 0,
         calls = [DiracSound_setMusic 1 :: string dirac_call]\<rparr>, constructed = 1, logcat = []\<rparr>" 0]
  by (simp add: initialize_def numeral_2_eq_2)

text \<open>
  C6. In every state, \<open>isDiracEnabled\<close> is true exactly when the effect object exists and
  its \<open>getMusic()\<close> answers 1; with no effect object, as before any \<open>initialize\<close>, it is
  false, and \<open>getMusic\<close> is not asked.
\<close>

theorem isDiracEnabled_iff:
  "isDiracEnabled getMusic context st = (\<exists>d. mDiracSound st = Some d \<and> getMusic d = 1)
   \<and> (mDiracSound st = None \<longrightarrow> \<not> isDiracEnabled getMusic context st)"
  by (simp add: isDiracEnabled_def split: option.split)

theorem isDiracEnabled_iff_witness:
  "\<not> isDiracEnabled (\<lambda>d. 1) ()
       \<lparr>mDiracSound = (None :: string DiracSound option), constructed = 0, logcat = []\<rparr>
   \<and> isDiracEnabled (\<lambda>d. 1) ()
       (initialize \<lparr>mDiracSound = (None :: string DiracSound option), constructed = 0, logcat = []\<rparr>)
   \<and> \<not> isDiracEnabled (\<lambda>d. 2) ()
       (initialize \<lparr>mDiracSound = (None :: string DiracSound option), constructed = 0, logcat = []\<rparr>)"
  using isDiracEnabled_iff [of "\<lambda>d. 1" "()"
      "\<lparr>mDiracSound = (None :: string DiracSound option), constructed = 0, logcat = []\<rparr>"]
    isDiracEnabled_iff [of "\<lambda>d. 1" "()"
      "initialize \<lparr>mDiracSound = (None :: string DiracSound option), constructed = 0, logcat = []\<rparr>"]
    isDiracEnabled_iff [of "\<lambda>d. 2" "()"
      "initialize \<lparr>mDiracSound = (None :: string DiracSound option), constructed = 0, logcat = []\<rparr>"]
  by (simp add: initialize_def)

text \<open>
  C10. With no effect object (\<open>initialize\<close> never called), \<open>setMusic\<close>,
  \<open>setHeadsetType\<close> and \<open>setLevel\<close> on a valid preset of at least one element each
  throw \<open>NullPointerException\<close> and leave the handle null; \<open>isDiracEnabled\<close> alone
  checks for null, and answers false.
\<close>

theorem uninitialized_calls_throw:
  "mDiracSound st = None \<longrightarrow>
     fst (setMusic enable st) = Some NullPointerException
     \<and> mDiracSound (snd (setMusic enable st)) = None
     \<and> fst (setHeadsetType paramInt st) = Some NullPointerException
     \<and> mDiracSound (snd (setHeadsetType paramInt st)) = None
     \<and> (valid_preset parseFloat es \<longrightarrow>
          fst (setLevel parseFloat (render es) st) = Some NullPointerException
          \<and> mDiracSound (snd (setLevel parseFloat (render es) st)) = None)
     \<and> isDiracEnabled getMusic context st = False"
proof (intro impI conjI)
  assume n: "mDiracSound st = None"
  show "fst (setMusic enable st) = Some NullPointerException"
    and "mDiracSound (snd (setMusic enable st)) = None"
    and "fst (setHeadsetType paramInt st) = Some NullPointerException"
    and "mDiracSound (snd (setHeadsetType paramInt st)) = None"
    and "isDiracEnabled getMusic context st = False"
    using n by (simp_all add: setMusic_def setHeadsetType_def invoke_def Log_d_def isDiracEnabled_def)
  assume v: "valid_preset parseFloat es"
  let ?st = "Log_d (Log_setLevel (render es)) st"
  have n': "mDiracSound ?st = None" by (simp add: Log_d_def n)
  have "length (java_split (render es)) = length es"
    by (rule valid_preset_values(3) [OF v])
  moreover from v have "es \<noteq> []"
    by (simp add: valid_preset_def)
  ultimately
  obtain p ps where ps: "java_split (render es) = p # ps"
    by (cases "java_split (render es)") auto
  with valid_preset_values(1) [OF v] obtain x where "Float_valueOf parseFloat p = Some x"
    by auto
  from setLevel_loop_null [OF this n', of 0 ps]
  have "setLevel parseFloat (render es) st = (Some NullPointerException, ?st)"
    by (simp add: setLevel_def ps)
  then show "fst (setLevel parseFloat (render es) st) = Some NullPointerException"
    and "mDiracSound (snd (setLevel parseFloat (render es) st)) = None"
    by (simp_all add: n')
qed

theorem uninitialized_calls_throw_witness:
  "fst (setMusic True \<lparr>mDiracSound = (None :: string DiracSound option),
          constructed = 0, logcat = []\<rparr>) = Some NullPointerException
   \<and> fst (setHeadsetType 1 \<lparr>mDiracSound = (None :: string DiracSound option),
          constructed = 0, logcat = []\<rparr>) = Some NullPointerException
   \<and> fst (setLevel Some '' 1.5 ,2 '' \<lparr>mDiracSound = (None :: string DiracSound option),
          constructed = 0, logcat = []\<rparr>) = Some NullPointerException
   \<and> isDiracEnabled (\<lambda>d. 1) () \<lparr>mDiracSound = (None :: string DiracSound option),
          constructed = 0, logcat = []\<rparr> = False"
proof -
  have v: "valid_preset Some [('' '', ''1.5'', '' ''), ([], ''2'', '' '')]"
    by (simp add: valid_preset_def padded_number_def number_text_def is_ws_def trimmable_def)
  have r: "render [('' '', ''1.5'', '' ''), ([], ''2'', '' '')] = '' 1.5 ,2 ''"
    by simp
  from uninitialized_calls_throw [of "\<lparr>mDiracSound = (None :: string DiracSound option),
          constructed = 0, logcat = []\<rparr>" True 1 Some
          "[('' '', ''1.5'', '' ''), ([], ''2'', '' '')]" "\<lambda>d. 1" "()"] v
  show ?thesis unfolding r by simp
qed

end
